theory Spec2Isabelle
  imports Main "HOL-Library.Word"
begin

unbundle bit_operations_syntax

section \<open>Bytes, strings and hexadecimal encoding\<close>

text \<open>
  A Go \<open>string\<close> is a sequence of bytes, and so is an Isabelle \<open>string\<close>: the conversion
  \<open>[]byte(key)\<close> reads the bytes of the string as they are (its UTF-8 encoding when the
  string holds text).
\<close>

type_synonym byte = "8 word"
type_synonym uint32 = "32 word"
type_synonym uint64 = "64 word"

definition bytes_of_string :: "string \<Rightarrow> byte list" where
  "bytes_of_string s = map (\<lambda>c. word_of_nat (of_char c)) s"

text \<open>
  \<open>encoding/hex\<close>: \<open>EncodeToString\<close> writes, for each source byte \<open>v\<close>, the two characters
  \<open>hextable[v>>4]\<close> and \<open>hextable[v&0x0f]\<close>.
\<close>

definition hextable :: string where
  "hextable = ''0123456789abcdef''"

fun EncodeToString :: "byte list \<Rightarrow> string" where
  "EncodeToString [] = []"
| "EncodeToString (v # src) =
     hextable ! unat (drop_bit 4 v) # hextable ! unat (v AND 0x0f) # EncodeToString src"

section \<open>SHA-256 (crypto/sha256)\<close>

text \<open>
  The digest that \<open>sha256.New\<close>, \<open>Write\<close> and \<open>Sum\<close> compute for one message, as the
  portable block function of the Go library computes it: the message is padded with the
  byte \<open>0x80\<close>, zero bytes up to 56 modulo 64 and the length in bits as a big-endian
  \<open>uint64\<close>; every 64-byte chunk is expanded to 64 words and run through 64 rounds.
\<close>

definition K256 :: "uint32 list" where
  "K256 = [
    0x428A2F98, 0x71374491, 0xB5C0FBCF, 0xE9B5DBA5, 0x3956C25B, 0x59F111F1, 0x923F82A4, 0xAB1C5ED5,
    0xD807AA98, 0x12835B01, 0x243185BE, 0x550C7DC3, 0x72BE5D74, 0x80DEB1FE, 0x9BDC06A7, 0xC19BF174,
    0xE49B69C1, 0xEFBE4786, 0x0FC19DC6, 0x240CA1CC, 0x2DE92C6F, 0x4A7484AA, 0x5CB0A9DC, 0x76F988DA,
    0x983E5152, 0xA831C66D, 0xB00327C8, 0xBF597FC7, 0xC6E00BF3, 0xD5A79147, 0x06CA6351, 0x14292967,
    0x27B70A85, 0x2E1B2138, 0x4D2C6DFC, 0x53380D13, 0x650A7354, 0x766A0ABB, 0x81C2C92E, 0x92722C85,
    0xA2BFE8A1, 0xA81A664B, 0xC24B8B70, 0xC76C51A3, 0xD192E819, 0xD6990624, 0xF40E3585, 0x106AA070,
    0x19A4C116, 0x1E376C08, 0x2748774C, 0x34B0BCB5, 0x391C0CB3, 0x4ED8AA4A, 0x5B9CCA4F, 0x682E6FF3,
    0x748F82EE, 0x78A5636F, 0x84C87814, 0x8CC70208, 0x90BEFFFA, 0xA4506CEB, 0xBEF9A3F7, 0xC67178F2]"

type_synonym sha_state =
  "uint32 \<times> uint32 \<times> uint32 \<times> uint32 \<times> uint32 \<times> uint32 \<times> uint32 \<times> uint32"

definition init256 :: sha_state where
  "init256 = (0x6A09E667, 0xBB67AE85, 0x3C6EF372, 0xA54FF53A,
              0x510E527F, 0x9B05688C, 0x1F83D9AB, 0x5BE0CD19)"

definition RotateLeft32 :: "uint32 \<Rightarrow> int \<Rightarrow> uint32" where
  \<comment> \<open>\<open>math/bits\<close>: \<open>s := uint(k) & 31; return x<<s | x>>(32-s)\<close>\<close>
  "RotateLeft32 x k = (let s = nat (k mod 32) in push_bit s x OR drop_bit (32 - s) x)"

definition be_uint32 :: "byte \<Rightarrow> byte \<Rightarrow> byte \<Rightarrow> byte \<Rightarrow> uint32" where
  "be_uint32 a b c d =
     push_bit 24 (ucast a) OR push_bit 16 (ucast b) OR push_bit 8 (ucast c) OR ucast d"

fun load_words :: "byte list \<Rightarrow> uint32 list" where
  "load_words (a # b # c # d # p) = be_uint32 a b c d # load_words p"
| "load_words _ = []"

definition extend_schedule :: "uint32 list \<Rightarrow> uint32 list" where
  "extend_schedule w =
     (let i = length w;
          v1 = w ! (i - 2);
          t1 = RotateLeft32 v1 (-17) XOR RotateLeft32 v1 (-19) XOR drop_bit 10 v1;
          v2 = w ! (i - 15);
          t2 = RotateLeft32 v2 (-7) XOR RotateLeft32 v2 (-18) XOR drop_bit 3 v2
      in w @ [t1 + w ! (i - 7) + t2 + w ! (i - 16)])"

fun extend_times :: "nat \<Rightarrow> uint32 list \<Rightarrow> uint32 list" where
  "extend_times 0 w = w"
| "extend_times (Suc n) w = extend_times n (extend_schedule w)"

definition schedule :: "byte list \<Rightarrow> uint32 list" where
  \<comment> \<open>the first 16 words are read from the chunk, the loop from 16 to 63 adds the other 48\<close>
  "schedule p = extend_times 48 (load_words (take 64 p))"

fun sha_round :: "sha_state \<Rightarrow> uint32 \<times> uint32 \<Rightarrow> sha_state" where
  "sha_round (a, b, c, d, e, f, g, h) (k, w) =
     (let t1 = h + (RotateLeft32 e (-6) XOR RotateLeft32 e (-11) XOR RotateLeft32 e (-25))
               + ((e AND f) XOR (NOT e AND g)) + k + w;
          t2 = (RotateLeft32 a (-2) XOR RotateLeft32 a (-13) XOR RotateLeft32 a (-22))
               + ((a AND b) XOR (a AND c) XOR (b AND c))
      in (t1 + t2, a, b, c, d + t1, e, f, g))"

fun block :: "sha_state \<Rightarrow> byte list \<Rightarrow> sha_state" where
  "block (h0, h1, h2, h3, h4, h5, h6, h7) p =
     (case foldl sha_round (h0, h1, h2, h3, h4, h5, h6, h7) (zip K256 (schedule p)) of
        (a, b, c, d, e, f, g, h) \<Rightarrow>
          (h0 + a, h1 + b, h2 + c, h3 + d, h4 + e, h5 + f, h6 + g, h7 + h))"

fun blocks :: "nat \<Rightarrow> sha_state \<Rightarrow> byte list \<Rightarrow> sha_state" where
  "blocks 0 dig p = dig"
| "blocks (Suc n) dig p = blocks n (block dig p) (drop 64 p)"

definition PutUint64 :: "uint64 \<Rightarrow> byte list" where
  "PutUint64 v = map (\<lambda>i. ucast (drop_bit (56 - 8 * i) v)) [0..<8]"

definition PutUint32 :: "uint32 \<Rightarrow> byte list" where
  "PutUint32 v = [ucast (drop_bit 24 v), ucast (drop_bit 16 v), ucast (drop_bit 8 v), ucast v]"

definition sha_padding :: "nat \<Rightarrow> byte list" where
  "sha_padding len =
     (let t = (if len mod 64 < 56 then 56 - len mod 64 else 64 + 56 - len mod 64)
      in 0x80 # replicate (t - 1) 0 @ PutUint64 (push_bit 3 (word_of_nat len)))"

definition Sum256 :: "byte list \<Rightarrow> byte list" where
  "Sum256 m =
     (let p = m @ sha_padding (length m) in
      case blocks (length p div 64) init256 p of
        (h0, h1, h2, h3, h4, h5, h6, h7) \<Rightarrow>
          concat (map PutUint32 [h0, h1, h2, h3, h4, h5, h6, h7]))"

section \<open>Key material generator (internal/util/hash.go)\<close>

text \<open>
  An \<open>error\<close> is a value made by \<open>errors.New\<close>, told apart by its message alone, the error
  of a read that came short of entropy, or the error with which the database driver reports
  the violation of the named uniqueness constraint.
\<close>

datatype error =
    ErrorString string
  | ErrUnexpectedEOF
  | UniqueViolation string

text \<open>
  \<open>crypto/rand.Read\<close> fills the whole buffer from the system's entropy source or returns an
  error. The entropy on offer is an input of the model: a list of bytes, of which \<open>Read\<close>
  takes the first \<open>n\<close>; a source that cannot supply \<open>n\<close> bytes makes \<open>Read\<close> fail.
\<close>

definition rand_Read :: "nat \<Rightarrow> byte list \<Rightarrow> error + byte list" where
  "rand_Read n entropy =
     (if length entropy < n then Inl ErrUnexpectedEOF else Inr (take n entropy))"

definition GenerateAPIKey :: "byte list \<Rightarrow> error + string" where
  "GenerateAPIKey entropy =
     (case rand_Read 32 entropy of
        Inl err \<Rightarrow> Inl err
      | Inr bytes \<Rightarrow> Inr (''sk-'' @ EncodeToString bytes))"

definition HashAPIKey :: "string \<Rightarrow> string" where
  "HashAPIKey key = EncodeToString (Sum256 (bytes_of_string key))"

section \<open>Data model (internal/domain/models/api_key.go)\<close>

text \<open>
  An instant of \<open>time.Time\<close> is an integer count of nanoseconds; the zero value of
  \<open>time.Time\<close> is the instant 0. A \<open>*time.Time\<close> and a \<open>gorm.DeletedAt\<close> are optional
  instants.
\<close>

type_synonym time = int

record APIKey =
  ID :: nat
  Name :: string
  Key :: string
  Description :: string
  Active :: bool
  ExpiresAt :: "time option"
  CreatedAt :: time
  UpdatedAt :: time
  DeletedAt :: "time option"

record CreateAPIKeyRequest =
  req_Name :: string
  req_Description :: string
  req_ExpiresAt :: "time option"

record UpdateAPIKeyRequest =
  upd_Name :: string
  upd_Description :: string
  upd_Active :: bool
  upd_ExpiresAt :: "time option"

record APIKeyResponse =
  resp_ID :: nat
  resp_Name :: string
  resp_Key :: string
  resp_Description :: string
  resp_Active :: bool
  resp_ExpiresAt :: "time option"
  resp_CreatedAt :: time
  resp_UpdatedAt :: time

definition zero_APIKey :: APIKey where
  \<comment> \<open>\<open>&models.APIKey{}\<close>\<close>
  "zero_APIKey = \<lparr>ID = 0, Name = [], Key = [], Description = [], Active = False,
     ExpiresAt = None, CreatedAt = 0, UpdatedAt = 0, DeletedAt = None\<rparr>"

definition ToResponseWithKey :: "APIKey \<Rightarrow> string \<Rightarrow> APIKeyResponse" where
  "ToResponseWithKey ak plainTextKey =
     \<lparr>resp_ID = ID ak, resp_Name = Name ak, resp_Key = plainTextKey,
      resp_Description = Description ak, resp_Active = Active ak,
      resp_ExpiresAt = ExpiresAt ak, resp_CreatedAt = CreatedAt ak,
      resp_UpdatedAt = UpdatedAt ak\<rparr>"

definition ToResponseWithoutKey :: "APIKey \<Rightarrow> APIKeyResponse" where
  "ToResponseWithoutKey ak =
     \<lparr>resp_ID = ID ak, resp_Name = Name ak, resp_Key = ''***'',
      resp_Description = Description ak, resp_Active = Active ak,
      resp_ExpiresAt = ExpiresAt ak, resp_CreatedAt = CreatedAt ak,
      resp_UpdatedAt = UpdatedAt ak\<rparr>"

definition FromCreateRequest ::
  "byte list \<Rightarrow> APIKey \<Rightarrow> CreateAPIKeyRequest \<Rightarrow> error + string \<times> APIKey" where
  "FromCreateRequest entropy ak req =
     (let ak1 = ak\<lparr>Name := req_Name req, Description := req_Description req,
                    ExpiresAt := req_ExpiresAt req, Active := True\<rparr>
      in case GenerateAPIKey entropy of
           Inl err \<Rightarrow> Inl err
         | Inr plainTextKey \<Rightarrow> Inr (plainTextKey, ak1\<lparr>Key := HashAPIKey plainTextKey\<rparr>))"

definition FromUpdateRequest :: "APIKey \<Rightarrow> UpdateAPIKeyRequest \<Rightarrow> APIKey" where
  "FromUpdateRequest ak req =
     ak\<lparr>Name := upd_Name req, Description := upd_Description req,
        Active := upd_Active req, ExpiresAt := upd_ExpiresAt req\<rparr>"

definition IsExpired :: "time \<Rightarrow> APIKey \<Rightarrow> bool" where
  \<comment> \<open>\<open>now\<close> is the reading of \<open>time.Now()\<close>; \<open>t.After(u)\<close> is \<open>t > u\<close>\<close>
  "IsExpired now ak =
     (case ExpiresAt ak of None \<Rightarrow> False | Some expiresAt \<Rightarrow> now > expiresAt)"

definition IsValid :: "time \<Rightarrow> APIKey \<Rightarrow> bool" where
  "IsValid now ak \<longleftrightarrow> Active ak \<and> \<not> IsExpired now ak"

section \<open>The database behind the repository (gorm on the table \<open>api_keys\<close>)\<close>

text \<open>
  The table is a list of rows in insertion order, with the sequence that numbers new rows
  and a log of the statements sent, so that a call that never reaches the database leaves
  the whole value as it was. \<open>DeletedAt\<close> switches on logical deletion, so every query and
  update of the model sees only rows whose \<open>DeletedAt\<close> is unset. The program never migrates
  this table (its \<open>autoMigrate\<close> covers \<open>models.User\<close> only), so the table is as it was made
  elsewhere: \<open>ID\<close> is taken to be its serial primary key, which every query by ID
  presupposes, and whether \<open>Key\<close> carries the unique index that its struct tag declares is
  left open: \<open>key_index\<close> says whether it does. Both constraints range over all rows, the
  logically deleted ones included. Connection faults are outside the model: a statement
  fails only by a constraint.
\<close>

datatype statement =
    Insert APIKey
  | SelectByID nat
  | SelectByKey string
  | SelectAll
  | CountByKey string
  | UpdateAll APIKey
  | SoftDelete nat

record DB =
  rows :: "APIKey list"
  last_id :: nat
  statements :: "statement list"
  key_index :: bool

definition sent :: "statement \<Rightarrow> DB \<Rightarrow> DB" where
  "sent st db = db\<lparr>statements := statements db @ [st]\<rparr>"

definition live :: "APIKey \<Rightarrow> bool" where
  "live r \<longleftrightarrow> DeletedAt r = None"

definition db_Create :: "time \<Rightarrow> DB \<Rightarrow> APIKey \<Rightarrow> (error + APIKey) \<times> DB" where
  \<comment> \<open>\<open>db.Create(apiKey)\<close>: a false \<open>Active\<close> takes the default of its tag \<open>default:true\<close>, zero
      timestamps are set to now, a zero ID is drawn from the sequence; the record is filled
      with what was stored\<close>
  "db_Create now db ak =
     (let ak1 = ak\<lparr>Active := (if Active ak then Active ak else True),
                    CreatedAt := (if CreatedAt ak = 0 then now else CreatedAt ak),
                    UpdatedAt := (if UpdatedAt ak = 0 then now else UpdatedAt ak)\<rparr>;
          ak2 = (if ID ak1 = 0 then ak1\<lparr>ID := Suc (last_id db)\<rparr> else ak1);
          db1 = sent (Insert ak) (if ID ak1 = 0 then db\<lparr>last_id := Suc (last_id db)\<rparr> else db)
      in if \<exists>r \<in> set (rows db). ID r = ID ak2 then (Inl (UniqueViolation ''api_keys_pkey''), db1)
         else if key_index db \<and> (\<exists>r \<in> set (rows db). Key r = Key ak2)
           then (Inl (UniqueViolation ''idx_api_keys_key''), db1)
         else (Inr ak2, db1\<lparr>rows := rows db @ [ak2]\<rparr>))"

definition db_First :: "statement \<Rightarrow> (APIKey \<Rightarrow> bool) \<Rightarrow> DB \<Rightarrow> APIKey option \<times> DB" where
  \<comment> \<open>\<open>db.First\<close>: the first live row that matches; \<open>None\<close> is \<open>gorm.ErrRecordNotFound\<close>\<close>
  "db_First st cond db = (find (\<lambda>r. cond r \<and> live r) (rows db), sent st db)"

definition db_Count :: "statement \<Rightarrow> (APIKey \<Rightarrow> bool) \<Rightarrow> DB \<Rightarrow> nat \<times> DB" where
  "db_Count st cond db = (length (filter (\<lambda>r. cond r \<and> live r) (rows db)), sent st db)"

definition db_Find :: "DB \<Rightarrow> APIKey list \<times> DB" where
  "db_Find db = (filter live (rows db), sent SelectAll db)"

definition db_Save :: "time \<Rightarrow> DB \<Rightarrow> APIKey \<Rightarrow> APIKey \<times> DB" where
  \<comment> \<open>\<open>db.Save\<close> of a row with a primary key: all columns are written to the live row of
      that ID, with \<open>UpdatedAt\<close> set to now\<close>
  "db_Save now db ak =
     (let ak1 = ak\<lparr>UpdatedAt := now\<rparr>
      in (ak1, (sent (UpdateAll ak) db)
                 \<lparr>rows := map (\<lambda>r. if ID r = ID ak \<and> live r then ak1 else r) (rows db)\<rparr>))"

definition db_Delete :: "time \<Rightarrow> DB \<Rightarrow> nat \<Rightarrow> DB" where
  \<comment> \<open>\<open>db.Delete(&models.APIKey{}, id)\<close> sets \<open>DeletedAt\<close> on the live row of that ID\<close>
  "db_Delete now db id' =
     (sent (SoftDelete id') db)
       \<lparr>rows := map (\<lambda>r. if ID r = id' \<and> live r then r\<lparr>DeletedAt := Some now\<rparr> else r) (rows db)\<rparr>"

section \<open>Key store (internal/domain/repository/api_key_repository.go)\<close>

text \<open>
  Every repository method takes the database and returns it with its result; a method
  that fills the record behind its pointer argument returns the filled record.
\<close>

definition ExistsByKey :: "DB \<Rightarrow> string \<Rightarrow> bool \<times> DB" where
  "ExistsByKey db key =
     (if key = [] then (False, db)
      else case db_Count (CountByKey key) (\<lambda>r. Key r = key) db of
             (count, db1) \<Rightarrow> (count > 0, db1))"

definition Create :: "time \<Rightarrow> DB \<Rightarrow> APIKey \<Rightarrow> (error + APIKey) \<times> DB" where
  "Create now db apiKey =
     (if Name apiKey = [] then (Inl (ErrorString ''name is required''), db)
      else if Key apiKey = [] then (Inl (ErrorString ''key is required''), db)
      else case ExistsByKey db (Key apiKey) of
             (True, db1) \<Rightarrow> (Inl (ErrorString ''API key already exists''), db1)
           | (False, db1) \<Rightarrow> db_Create now db1 apiKey)"

definition GetByID :: "DB \<Rightarrow> nat \<Rightarrow> (error + APIKey) \<times> DB" where
  "GetByID db id' =
     (if id' = 0 then (Inl (ErrorString ''invalid API key ID''), db)
      else case db_First (SelectByID id') (\<lambda>r. ID r = id') db of
             (None, db1) \<Rightarrow> (Inl (ErrorString ''API key not found''), db1)
           | (Some apiKey, db1) \<Rightarrow> (Inr apiKey, db1))"

definition GetByKey :: "DB \<Rightarrow> string \<Rightarrow> (error + APIKey) \<times> DB" where
  "GetByKey db key =
     (if key = [] then (Inl (ErrorString ''key is required''), db)
      else case db_First (SelectByKey key) (\<lambda>r. Key r = key) db of
             (None, db1) \<Rightarrow> (Inl (ErrorString ''API key not found''), db1)
           | (Some apiKey, db1) \<Rightarrow> (Inr apiKey, db1))"

definition GetAll :: "DB \<Rightarrow> (error + APIKey list) \<times> DB" where
  "GetAll db = (case db_Find db of (apiKeys, db1) \<Rightarrow> (Inr apiKeys, db1))"

definition Update :: "time \<Rightarrow> DB \<Rightarrow> APIKey \<Rightarrow> (error + APIKey) \<times> DB" where
  "Update now db apiKey =
     (if ID apiKey = 0 then (Inl (ErrorString ''invalid API key ID''), db)
      else if Name apiKey = [] then (Inl (ErrorString ''name is required''), db)
      else case GetByID db (ID apiKey) of
             (Inl err, db1) \<Rightarrow> (Inl err, db1)
           | (Inr existing, db1) \<Rightarrow>
               (let existing1 = existing\<lparr>Name := Name apiKey, Description := Description apiKey,
                                          Active := Active apiKey, ExpiresAt := ExpiresAt apiKey\<rparr>
                in case db_Save now db1 existing1 of
                     (existing2, db2) \<Rightarrow> (Inr existing2, db2)))"

definition Delete :: "time \<Rightarrow> DB \<Rightarrow> nat \<Rightarrow> error option \<times> DB" where
  "Delete now db id' =
     (if id' = 0 then (Some (ErrorString ''invalid API key ID''), db)
      else case GetByID db id' of
             (Inl err, db1) \<Rightarrow> (Some err, db1)
           | (Inr _, db1) \<Rightarrow> (None, db_Delete now db1 id'))"

section \<open>Key lifecycle service (internal/service/api_key_service.go)\<close>

definition CreateAPIKey ::
  "time \<Rightarrow> byte list \<Rightarrow> DB \<Rightarrow> CreateAPIKeyRequest \<Rightarrow> (error + APIKeyResponse) \<times> DB" where
  "CreateAPIKey now entropy db req =
     (if req_Name req = [] then (Inl (ErrorString ''name is required''), db)
      else case FromCreateRequest entropy zero_APIKey req of
             Inl err \<Rightarrow> (Inl err, db)
           | Inr (plainTextKey, apiKey) \<Rightarrow>
               (case Create now db apiKey of
                  (Inl err, db1) \<Rightarrow> (Inl err, db1)
                | (Inr apiKey1, db1) \<Rightarrow> (Inr (ToResponseWithKey apiKey1 plainTextKey), db1)))"

definition GetAPIKeyByID :: "DB \<Rightarrow> nat \<Rightarrow> (error + APIKeyResponse) \<times> DB" where
  "GetAPIKeyByID db id' =
     (if id' = 0 then (Inl (ErrorString ''invalid API key ID''), db)
      else case GetByID db id' of
             (Inl err, db1) \<Rightarrow> (Inl err, db1)
           | (Inr apiKey, db1) \<Rightarrow> (Inr (ToResponseWithoutKey apiKey), db1))"

definition GetAllAPIKeys :: "DB \<Rightarrow> (error + APIKeyResponse list) \<times> DB" where
  "GetAllAPIKeys db =
     (case GetAll db of
        (Inl err, db1) \<Rightarrow> (Inl err, db1)
      | (Inr apiKeys, db1) \<Rightarrow> (Inr (map ToResponseWithoutKey apiKeys), db1))"

definition UpdateAPIKey ::
  "time \<Rightarrow> DB \<Rightarrow> nat \<Rightarrow> UpdateAPIKeyRequest \<Rightarrow> (error + APIKeyResponse) \<times> DB" where
  "UpdateAPIKey now db id' req =
     (if id' = 0 then (Inl (ErrorString ''invalid API key ID''), db)
      else if upd_Name req = [] then (Inl (ErrorString ''name is required''), db)
      else case GetByID db id' of
             (Inl err, db1) \<Rightarrow> (Inl err, db1)
           | (Inr existing, db1) \<Rightarrow>
               (case Update now db1 (FromUpdateRequest existing req) of
                  (Inl err, db2) \<Rightarrow> (Inl err, db2)
                | (Inr existing1, db2) \<Rightarrow> (Inr (ToResponseWithoutKey existing1), db2)))"

definition DeleteAPIKey :: "time \<Rightarrow> DB \<Rightarrow> nat \<Rightarrow> error option \<times> DB" where
  "DeleteAPIKey now db id' =
     (if id' = 0 then (Some (ErrorString ''invalid API key ID''), db)
      else Delete now db id')"

definition ValidateAPIKey :: "time \<Rightarrow> DB \<Rightarrow> string \<Rightarrow> (error + APIKey) \<times> DB" where
  "ValidateAPIKey now db key =
     (if key = [] then (Inl (ErrorString ''API key is required''), db)
      else let hashedKey = HashAPIKey key
           in case GetByKey db hashedKey of
                (Inl err, db1) \<Rightarrow> (Inl (ErrorString ''invalid API key''), db1)
              | (Inr apiKey, db1) \<Rightarrow>
                  if \<not> IsValid now apiKey then (Inl (ErrorString ''API key is not valid''), db1)
                  else (Inr apiKey, db1))"

section \<open>String helpers (package \<open>strings\<close>)\<close>

text \<open>
  \<open>strings.TrimSpace\<close> removes leading and trailing white space as Unicode defines it.
  On a byte string, a white-space rune is read at a position exactly when the bytes there
  are its UTF-8 encoding; these are the encodings of the runes of \<open>unicode.IsSpace\<close>:
  tab to carriage return, space, U+0085, U+00A0, U+1680, U+2000 to U+200A, U+2028,
  U+2029, U+202F, U+205F and U+3000.
\<close>

definition space_runes :: "string list" where
  "space_runes =
     [[CHR 0x09], [CHR 0x0A], [CHR 0x0B], [CHR 0x0C], [CHR 0x0D], [CHR 0x20],
      [CHR 0xC2, CHR 0x85], [CHR 0xC2, CHR 0xA0],
      [CHR 0xE1, CHR 0x9A, CHR 0x80],
      [CHR 0xE2, CHR 0x80, CHR 0x80], [CHR 0xE2, CHR 0x80, CHR 0x81],
      [CHR 0xE2, CHR 0x80, CHR 0x82], [CHR 0xE2, CHR 0x80, CHR 0x83],
      [CHR 0xE2, CHR 0x80, CHR 0x84], [CHR 0xE2, CHR 0x80, CHR 0x85],
      [CHR 0xE2, CHR 0x80, CHR 0x86], [CHR 0xE2, CHR 0x80, CHR 0x87],
      [CHR 0xE2, CHR 0x80, CHR 0x88], [CHR 0xE2, CHR 0x80, CHR 0x89],
      [CHR 0xE2, CHR 0x80, CHR 0x8A],
      [CHR 0xE2, CHR 0x80, CHR 0xA8], [CHR 0xE2, CHR 0x80, CHR 0xA9],
      [CHR 0xE2, CHR 0x80, CHR 0xAF],
      [CHR 0xE2, CHR 0x81, CHR 0x9F],
      [CHR 0xE3, CHR 0x80, CHR 0x80]]"

definition HasPrefix :: "string \<Rightarrow> string \<Rightarrow> bool" where
  "HasPrefix s prefix \<longleftrightarrow> length s \<ge> length prefix \<and> take (length prefix) s = prefix"

definition TrimPrefix :: "string \<Rightarrow> string \<Rightarrow> string" where
  "TrimPrefix s prefix = (if HasPrefix s prefix then drop (length prefix) s else s)"

fun TrimLeftSpace :: "string \<Rightarrow> string" where
  "TrimLeftSpace [] = []"
| "TrimLeftSpace (c # cs) =
     (case find (HasPrefix (c # cs)) space_runes of
        None \<Rightarrow> c # cs
      | Some sp \<Rightarrow> TrimLeftSpace (drop (length sp - 1) cs))"

fun TrimRightSpace_rev :: "string \<Rightarrow> string" where
  \<comment> \<open>the right trim, on the reversed string\<close>
  "TrimRightSpace_rev [] = []"
| "TrimRightSpace_rev (c # cs) =
     (case find (\<lambda>sp. HasPrefix (c # cs) (rev sp)) space_runes of
        None \<Rightarrow> c # cs
      | Some sp \<Rightarrow> TrimRightSpace_rev (drop (length sp - 1) cs))"

definition TrimRightSpace :: "string \<Rightarrow> string" where
  "TrimRightSpace s = rev (TrimRightSpace_rev (rev s))"

definition TrimSpace :: "string \<Rightarrow> string" where
  "TrimSpace s = TrimRightSpace (TrimLeftSpace s)"

section \<open>Authentication gate (\<open>APIKeyAuthMiddleware\<close>)\<close>

text \<open>
  Of \<open>gin.Context\<close> the gate uses the request headers, the response it writes with
  \<open>c.JSON\<close>, the key-value store filled by \<open>c.Set\<close>, \<open>c.Abort\<close>, which keeps the pending
  handlers from running, and \<open>c.Next\<close>, which runs them. The calls to the logger leave
  the response and the context as they are and are not part of the model.
\<close>

datatype ctx_value = APIKeyValue APIKey | UintValue nat | StringValue string

record Context =
  Header :: "string \<Rightarrow> string list"
  response :: "(nat \<times> (string \<times> string) list) option"
  Keys :: "string \<rightharpoonup> ctx_value"
  aborted :: bool
  next_called :: bool

definition GetHeader :: "Context \<Rightarrow> string \<Rightarrow> string" where
  "GetHeader c key = (case Header c key of [] \<Rightarrow> [] | v # _ \<Rightarrow> v)"

definition JSON :: "nat \<Rightarrow> (string \<times> string) list \<Rightarrow> Context \<Rightarrow> Context" where
  "JSON code obj c = c\<lparr>response := Some (code, obj)\<rparr>"

definition Abort :: "Context \<Rightarrow> Context" where
  "Abort c = c\<lparr>aborted := True\<rparr>"

definition Set :: "string \<Rightarrow> ctx_value \<Rightarrow> Context \<Rightarrow> Context" where
  "Set key v c = c\<lparr>Keys := (Keys c)(key \<mapsto> v)\<rparr>"

definition Next :: "Context \<Rightarrow> Context" where
  "Next c = c\<lparr>next_called := True\<rparr>"

definition StatusUnauthorized :: nat where
  "StatusUnauthorized = 401"

definition unauthorized :: "string \<Rightarrow> Context \<Rightarrow> Context" where
  \<comment> \<open>\<open>c.JSON(http.StatusUnauthorized, gin.H{...}); c.Abort()\<close>\<close>
  "unauthorized message c =
     Abort (JSON StatusUnauthorized [(''error'', ''Unauthorized''), (''message'', message)] c)"

definition clean_key :: "string \<Rightarrow> string" where
  \<comment> \<open>lines 416 to 419: the header value without white space and \<open>Bearer\<close> prefix\<close>
  "clean_key apiKeyHeader =
     (let apiKey = TrimSpace apiKeyHeader
      in if HasPrefix apiKey ''Bearer '' then TrimSpace (TrimPrefix apiKey ''Bearer '')
         else apiKey)"

definition APIKeyAuthMiddleware :: "time \<Rightarrow> DB \<Rightarrow> Context \<Rightarrow> Context \<times> DB" where
  "APIKeyAuthMiddleware now db c =
     (let apiKeyHeader = GetHeader c ''X-API-Key''
      in if apiKeyHeader = [] then (unauthorized ''API key is required'' c, db)
         else let apiKey = clean_key apiKeyHeader
              in if apiKey = [] then (unauthorized ''API key cannot be empty'' c, db)
                 else case ValidateAPIKey now db apiKey of
                        (Inl err, db1) \<Rightarrow> (unauthorized ''Invalid API key'' c, db1)
                      | (Inr validatedAPIKey, db1) \<Rightarrow>
                          (Next (Set ''api_key_name'' (StringValue (Name validatedAPIKey))
                                  (Set ''api_key_id'' (UintValue (ID validatedAPIKey))
                                    (Set ''api_key'' (APIKeyValue validatedAPIKey) c))), db1))"

section \<open>Notions of the specification\<close>

subsection \<open>Lowercase hexadecimal\<close>

text \<open>
  Lowercase hexadecimal as the specification words it, independent of the table lookup of
  \<open>EncodeToString\<close>: a digit below ten is written as a decimal digit, the others as the
  letters from \<open>a\<close>; a byte is written as its high digit followed by its low digit.
\<close>

definition is_lower_hex :: "char \<Rightarrow> bool" where
  "is_lower_hex c \<longleftrightarrow> c \<in> set ''0123456789abcdef''"

definition hex_digit :: "nat \<Rightarrow> char" where
  "hex_digit n =
     (if n < 10 then char_of (of_char CHR ''0'' + n)
      else char_of (of_char CHR ''a'' + (n - 10)))"

definition lower_hex :: "byte list \<Rightarrow> string" where
  "lower_hex bs = concat (map (\<lambda>b. [hex_digit (unat b div 16), hex_digit (unat b mod 16)]) bs)"

subsection \<open>The record a hash is stored under\<close>

text \<open>
  \<open>lookup\<close> names the row that \<open>GetByKey\<close> reads for a hash: the first row of the table with
  that \<open>Key\<close> that is not logically deleted.
\<close>

definition lookup :: "DB \<Rightarrow> string \<Rightarrow> APIKey option" where
  "lookup db hashedKey = find (\<lambda>r. Key r = hashedKey \<and> live r) (rows db)"

subsection \<open>Constraints of the table, and the rows that create and update write\<close>

text \<open>
  The primary key and the unique index on \<open>Key\<close>, as predicates on the table, and what the
  existence probe of \<open>Create\<close> gives without any index: no two rows that are not logically
  deleted share a hash. \<open>inserted\<close> is the row that an insert of \<open>apiKey\<close> writes: \<open>apiKey\<close>
  with its ID, when zero, drawn from the sequence, with \<open>Active\<close> true and with zero
  timestamps set to the time of the write. \<open>updated\<close> is a row after an update with the
  fields of \<open>apiKey\<close>: the live row of that ID with the four fields of the request and the
  time of the write, every other row as it was.
\<close>

definition primary_key :: "DB \<Rightarrow> bool" where
  "primary_key db \<longleftrightarrow> distinct (map ID (rows db))"



definition inserted :: "time \<Rightarrow> DB \<Rightarrow> APIKey \<Rightarrow> APIKey" where
  "inserted now db apiKey =
     apiKey\<lparr>ID := (if ID apiKey = 0 then Suc (last_id db) else ID apiKey),
            Active := True,
            CreatedAt := (if CreatedAt apiKey = 0 then now else CreatedAt apiKey),
            UpdatedAt := (if UpdatedAt apiKey = 0 then now else UpdatedAt apiKey)\<rparr>"

definition updated :: "time \<Rightarrow> APIKey \<Rightarrow> APIKey \<Rightarrow> APIKey" where
  "updated now apiKey r =
     (if ID r = ID apiKey \<and> live r
      then r\<lparr>Name := Name apiKey, Description := Description apiKey, Active := Active apiKey,
             ExpiresAt := ExpiresAt apiKey, UpdatedAt := now\<rparr>
      else r)"

subsection \<open>Reachable states of the table\<close>




subsection \<open>White space at the ends of a string\<close>

text \<open>
  A string starts (ends) with white space when one of the encodings of \<open>space_runes\<close> is a
  prefix (suffix) of it.
\<close>

definition starts_with_space :: "string \<Rightarrow> bool" where
  "starts_with_space s \<longleftrightarrow> find (HasPrefix s) space_runes \<noteq> None"

definition ends_with_space :: "string \<Rightarrow> bool" where
  "ends_with_space s \<longleftrightarrow> find (\<lambda>sp. HasPrefix (rev s) (rev sp)) space_runes \<noteq> None"

section \<open>Example data\<close>

text \<open>
  A key named \<open>ops\<close> stored under the hash of the secret \<open>sk-ops\<close>, tables (without the
  unique index, and \<open>indexed\<close> with it), requests and a request context, for the concrete
  instances of the theorems below; \<open>example_secret\<close> is the secret that \<open>GenerateAPIKey\<close>
  makes of \<open>example_entropy\<close>.
\<close>

definition example_row :: "bool \<Rightarrow> time option \<Rightarrow> time option \<Rightarrow> APIKey" where
  "example_row active expiresAt deletedAt =
     \<lparr>ID = 1, Name = ''ops'', Key = HashAPIKey ''sk-ops'', Description = [], Active = active,
      ExpiresAt = expiresAt, CreatedAt = 1, UpdatedAt = 1, DeletedAt = deletedAt\<rparr>"

definition example_db :: "APIKey list \<Rightarrow> DB" where
  "example_db rs = \<lparr>rows = rs, last_id = length rs, statements = [], key_index = False\<rparr>"


definition example_context :: "string \<Rightarrow> Context" where
  "example_context v =
     \<lparr>Header = (\<lambda>name. if name = ''X-API-Key'' then [v] else []), response = None,
      Keys = Map.empty, aborted = False, next_called = False\<rparr>"

definition example_update :: "string \<Rightarrow> bool \<Rightarrow> time option \<Rightarrow> UpdateAPIKeyRequest" where
  "example_update name active expiresAt =
     \<lparr>upd_Name = name, upd_Description = ''rotated'', upd_Active = active,
      upd_ExpiresAt = expiresAt\<rparr>"

definition example_entropy :: "byte list" where
  "example_entropy = replicate 32 0xAB"

definition example_secret :: string where
  "example_secret = ''sk-abababababababababababababababababababababababababababababababab''"

definition example_request :: "time option \<Rightarrow> CreateAPIKeyRequest" where
  "example_request expiresAt =
     \<lparr>req_Name = ''ops'', req_Description = ''deploys'', req_ExpiresAt = expiresAt\<rparr>"

section \<open>Properties of the hexadecimal encoding and of the digest\<close>

lemma length_EncodeToString: "length (EncodeToString src) = 2 * length src"
  by (induction src) simp_all

lemma unat_high_nibble: "unat (drop_bit 4 (v :: byte)) = unat v div 16"
  by (simp add: drop_bit_eq_div unat_div)

lemma unat_low_nibble: "unat ((v :: byte) AND 0x0f) = unat v mod 16"
proof -
  have "v AND 0x0f = take_bit 4 v"
    by (simp add: take_bit_eq_mask mask_eq_exp_minus_1)
  then show ?thesis
    by (simp add: take_bit_eq_mod unat_mod)
qed

lemma high_nibble_bound: "unat (v :: byte) div 16 < 16"
proof -
  have "unat v < 256"
    using unsigned_less [of v] by simp
  then show ?thesis by simp
qed

lemma hextable_all_lower_hex: "\<forall>n \<in> set [0..<16]. is_lower_hex (hextable ! n)"
  by (simp add: upt_rec hextable_def is_lower_hex_def)

lemma hextable_lower_hex: "n < 16 \<Longrightarrow> is_lower_hex (hextable ! n)"
  using hextable_all_lower_hex by (simp del: upt.simps)

lemma hextable_all_digits: "\<forall>n \<in> set [0..<16]. hextable ! n = hex_digit n"
  by code_simp

lemma hextable_hex_digit: "n < 16 \<Longrightarrow> hextable ! n = hex_digit n"
  using hextable_all_digits by (simp del: upt.simps)

lemma EncodeToString_lower_hex: "c \<in> set (EncodeToString src) \<Longrightarrow> is_lower_hex c"
  by (induction src)
     (auto simp: hextable_lower_hex unat_high_nibble unat_low_nibble high_nibble_bound)

lemma EncodeToString_eq_lower_hex: "EncodeToString src = lower_hex src"
proof (induction src)
  case Nil
  show ?case by (simp add: lower_hex_def)
next
  case (Cons v src)
  then show ?case
    by (simp add: lower_hex_def unat_high_nibble unat_low_nibble hextable_hex_digit
        high_nibble_bound)
qed

lemma length_PutUint32: "length (PutUint32 v) = 4"
  by (simp add: PutUint32_def)

lemma length_Sum256: "length (Sum256 m) = 32"
  by (simp add: Sum256_def Let_def length_PutUint32 split: prod.splits)

lemma length_HashAPIKey: "length (HashAPIKey key) = 64"
  by (simp add: HashAPIKey_def length_EncodeToString length_Sum256)

lemma HashAPIKey_not_empty: "HashAPIKey key \<noteq> []"
  using length_HashAPIKey [of key] by auto

section \<open>Key material generator: format of the secret and of its hash\<close>

text \<open>
  C4. Every plaintext secret returned by a successful \<open>GenerateAPIKey\<close> has exactly 67
  characters, starts with the fixed prefix \<open>sk-\<close>, and its remaining 64 characters are
  lowercase hexadecimal digits.
\<close>

theorem GenerateAPIKey_format:
  assumes "GenerateAPIKey entropy = Inr S"
  shows "length S = 67 \<and> take 3 S = ''sk-'' \<and> length (drop 3 S) = 64
         \<and> (\<forall>c \<in> set (drop 3 S). is_lower_hex c)"
proof -
  from assms have S: "S = ''sk-'' @ EncodeToString (take 32 entropy)" and len: "32 \<le> length entropy"
    by (auto simp: GenerateAPIKey_def rand_Read_def split: if_splits)
  from len have "length (EncodeToString (take 32 entropy)) = 64"
    by (simp add: length_EncodeToString)
  then show ?thesis
    using S by (auto dest: EncodeToString_lower_hex)
qed

theorem GenerateAPIKey_format_witness:
  "GenerateAPIKey (replicate 32 0xab)
     = Inr ''sk-abababababababababababababababababababababababababababababababab''
   \<and> length ''sk-abababababababababababababababababababababababababababababababab'' = 67
   \<and> list_all is_lower_hex
         (drop 3 ''sk-abababababababababababababababababababababababababababababababab'')"
proof -
  have gen: "GenerateAPIKey (replicate 32 0xab)
     = Inr ''sk-abababababababababababababababababababababababababababababababab''"
    by code_simp
  from GenerateAPIKey_format [OF gen] show ?thesis
    using gen by (simp add: list_all_iff)
qed

text \<open>
  The model of the digest computes the example of the SHA-256 standard, the hash of the
  string \<open>abc\<close> (one chunk), and the hash of a secret of 67 characters (two chunks).
\<close>

lemma HashAPIKey_abc:
  "HashAPIKey ''abc'' = ''ba7816bf8f01cfea414140de5dae2223b00361a396177a9cb410ff61f20015ad''"
  by code_simp

lemma HashAPIKey_example_secret:
  "HashAPIKey example_secret
     = ''011be1519f9dc126d599c8f67bc459d753d8db165bf64cb87a54166de9aa04a7''"
  by code_simp

text \<open>
  C5. \<open>HashAPIKey\<close> is a function of its argument alone (no salt, no state): for every
  string \<open>S\<close> it returns the lowercase hexadecimal writing of the SHA-256 digest of the
  bytes of \<open>S\<close>, which is 64 lowercase hexadecimal digits; on \<open>abc\<close> it returns the digest
  that the standard gives for this message.
\<close>

theorem HashAPIKey_sha256_hex:
  "HashAPIKey S = lower_hex (Sum256 (bytes_of_string S))
   \<and> length (HashAPIKey S) = 64
   \<and> list_all is_lower_hex (HashAPIKey S)
   \<and> HashAPIKey ''abc'' = ''ba7816bf8f01cfea414140de5dae2223b00361a396177a9cb410ff61f20015ad''
   \<and> HashAPIKey example_secret
        = ''011be1519f9dc126d599c8f67bc459d753d8db165bf64cb87a54166de9aa04a7''"
proof -
  have "list_all is_lower_hex (HashAPIKey S)"
    by (simp add: list_all_iff HashAPIKey_def EncodeToString_lower_hex)
  moreover have "HashAPIKey S = lower_hex (Sum256 (bytes_of_string S))"
    by (simp add: HashAPIKey_def EncodeToString_eq_lower_hex)
  ultimately show ?thesis
    using length_HashAPIKey [of S] HashAPIKey_abc HashAPIKey_example_secret
    by (simp only: simp_thms)
qed

section \<open>Validation (\<open>ValidateAPIKey\<close>)\<close>

lemma GetByKey_eq:
  "key \<noteq> [] \<Longrightarrow> GetByKey db key =
     ((case lookup db key of
         None \<Rightarrow> Inl (ErrorString ''API key not found'')
       | Some apiKey \<Rightarrow> Inr apiKey), sent (SelectByKey key) db)"
  by (simp add: GetByKey_def db_First_def lookup_def split: option.splits)

lemma ValidateAPIKey_eq:
  "key \<noteq> [] \<Longrightarrow> ValidateAPIKey now db key =
     ((case lookup db (HashAPIKey key) of
         None \<Rightarrow> Inl (ErrorString ''invalid API key'')
       | Some apiKey \<Rightarrow>
           if IsValid now apiKey then Inr apiKey else Inl (ErrorString ''API key is not valid'')),
      sent (SelectByKey (HashAPIKey key)) db)"
  by (simp add: ValidateAPIKey_def GetByKey_eq HashAPIKey_not_empty split: option.splits)

lemma IsValid_iff:
  "IsValid now ak \<longleftrightarrow> Active ak \<and> (ExpiresAt ak = None \<or> (\<exists>t. ExpiresAt ak = Some t \<and> now \<le> t))"
  by (auto simp: IsValid_def IsExpired_def split: option.splits)

lemma lookup_example:
  "lookup (example_db [example_row a e None]) (HashAPIKey ''sk-ops'') = Some (example_row a e None)"
  by (simp add: lookup_def example_db_def example_row_def live_def)

text \<open>
  C3. For the empty string \<open>ValidateAPIKey\<close> fails with \<open>API key is required\<close> and leaves the
  database, the log of its statements included, as it was: the store is not reached. For
  every non-empty input the one statement sent is the lookup of the hash of the input.
\<close>

theorem ValidateAPIKey_lookup:
  "ValidateAPIKey now db [] = (Inl (ErrorString ''API key is required''), db)
   \<and> (key \<noteq> [] \<longrightarrow> snd (ValidateAPIKey now db key) = sent (SelectByKey (HashAPIKey key)) db)"
proof -
  have rejected: "ValidateAPIKey now db [] = (Inl (ErrorString ''API key is required''), db)"
    by (simp add: ValidateAPIKey_def)
  have looked_up: "snd (ValidateAPIKey now db key) = sent (SelectByKey (HashAPIKey key)) db"
    if "key \<noteq> []"
    using that by (simp add: ValidateAPIKey_eq)
  from rejected looked_up show ?thesis
    by blast
qed

theorem ValidateAPIKey_lookup_witness:
  "''sk-ops'' \<noteq> []
   \<and> statements (snd (ValidateAPIKey 0 (example_db []) ''sk-ops''))
       = [SelectByKey (HashAPIKey ''sk-ops'')]
   \<and> rows (snd (ValidateAPIKey 0 (example_db []) ''sk-ops'')) = []
   \<and> ValidateAPIKey 0 (example_db []) [] = (Inl (ErrorString ''API key is required''), example_db [])"
  using ValidateAPIKey_lookup [of 0 "example_db []" "''sk-ops''"]
  by (simp add: sent_def example_db_def)

text \<open>
  C2, as the code has it. A record found by \<open>ValidateAPIKey\<close> is judged valid exactly when it
  is active and its \<open>ExpiresAt\<close> is absent or not before the current time: \<open>IsExpired\<close> asks
  whether now is strictly after \<open>ExpiresAt\<close>, so a record expiring at the current instant is
  still valid.
\<close>

theorem validate_valid_iff:
  assumes "key \<noteq> []" and "lookup db (HashAPIKey key) = Some ak"
  shows "(fst (ValidateAPIKey now db key) = Inr ak
            \<longleftrightarrow> Active ak \<and> (ExpiresAt ak = None \<or> (\<exists>t. ExpiresAt ak = Some t \<and> now \<le> t)))
         \<and> (IsValid now ak
            \<longleftrightarrow> Active ak \<and> (ExpiresAt ak = None \<or> (\<exists>t. ExpiresAt ak = Some t \<and> now \<le> t)))
         \<and> (\<not> IsValid now ak \<longrightarrow> fst (ValidateAPIKey now db key) = Inl (ErrorString ''API key is not valid''))"
proof -
  have decision: "fst (ValidateAPIKey now db key)
      = (if IsValid now ak then Inr ak else Inl (ErrorString ''API key is not valid''))"
    using assms by (simp add: ValidateAPIKey_eq)
  have returned: "fst (ValidateAPIKey now db key) = Inr ak \<longleftrightarrow> IsValid now ak"
    by (simp add: decision)
  show ?thesis
    using decision returned IsValid_iff [of now ak] by simp
qed

theorem validate_valid_iff_witness:
  "''sk-ops'' \<noteq> []
   \<and> lookup (example_db [example_row True (Some 100) None]) (HashAPIKey ''sk-ops'')
       = Some (example_row True (Some 100) None)
   \<and> fst (ValidateAPIKey 101 (example_db [example_row True (Some 100) None]) ''sk-ops'')
       = Inl (ErrorString ''API key is not valid'')
   \<and> \<not> IsValid 101 (example_row True (Some 100) None)"
proof -
  have ne: "''sk-ops'' \<noteq> []" by simp
  have ex: "\<not> IsValid 101 (example_row True (Some 100) None)"
    by (simp add: IsValid_iff example_row_def)
  from validate_valid_iff [OF ne lookup_example [of True "Some 100"], of 101] ex
  show ?thesis by (simp add: lookup_example)
qed

text \<open>
  C2, as stated, fails at a record whose \<open>ExpiresAt\<close> equals the current instant: the claim
  calls it invalid, and \<open>ValidateAPIKey\<close> returns it.
\<close>

theorem expiry_instant_counterexample:
  "fst (ValidateAPIKey 100 (example_db [example_row True (Some 100) None]) ''sk-ops'')
     = Inr (example_row True (Some 100) None)
   \<and> IsValid 100 (example_row True (Some 100) None)
   \<and> ExpiresAt (example_row True (Some 100) None) = Some 100"
  by (simp add: ValidateAPIKey_eq lookup_example IsValid_iff) (simp add: example_row_def)

section \<open>Authentication gate\<close>

lemma unauthorized_fields:
  "response (unauthorized m c) = Some (401, [(''error'', ''Unauthorized''), (''message'', m)])
   \<and> aborted (unauthorized m c) \<and> next_called (unauthorized m c) = next_called c
   \<and> Keys (unauthorized m c) = Keys c \<and> Header (unauthorized m c) = Header c"
  by (simp add: unauthorized_def Abort_def JSON_def StatusUnauthorized_def)

lemma gate_no_header:
  "GetHeader c ''X-API-Key'' = [] \<Longrightarrow>
     APIKeyAuthMiddleware now db c = (unauthorized ''API key is required'' c, db)"
  by (simp add: APIKeyAuthMiddleware_def)

lemma gate_empty_key:
  "GetHeader c ''X-API-Key'' \<noteq> [] \<Longrightarrow> clean_key (GetHeader c ''X-API-Key'') = [] \<Longrightarrow>
     APIKeyAuthMiddleware now db c = (unauthorized ''API key cannot be empty'' c, db)"
  by (simp add: APIKeyAuthMiddleware_def)

lemma gate_invalid:
  "GetHeader c ''X-API-Key'' \<noteq> [] \<Longrightarrow> clean_key (GetHeader c ''X-API-Key'') \<noteq> [] \<Longrightarrow>
   ValidateAPIKey now db (clean_key (GetHeader c ''X-API-Key'')) = (Inl err, db1) \<Longrightarrow>
     APIKeyAuthMiddleware now db c = (unauthorized ''Invalid API key'' c, db1)"
  by (simp add: APIKeyAuthMiddleware_def)

lemma gate_valid:
  "GetHeader c ''X-API-Key'' \<noteq> [] \<Longrightarrow> clean_key (GetHeader c ''X-API-Key'') \<noteq> [] \<Longrightarrow>
   ValidateAPIKey now db (clean_key (GetHeader c ''X-API-Key'')) = (Inr ak, db1) \<Longrightarrow>
     APIKeyAuthMiddleware now db c =
       (c\<lparr>Keys := (Keys c)(''api_key'' \<mapsto> APIKeyValue ak, ''api_key_id'' \<mapsto> UintValue (ID ak),
                           ''api_key_name'' \<mapsto> StringValue (Name ak)),
          next_called := True\<rparr>, db1)"
  by (simp add: APIKeyAuthMiddleware_def Next_def Set_def)

lemma GetHeader_example: "GetHeader (example_context v) ''X-API-Key'' = v"
  by (simp add: GetHeader_def example_context_def)

lemma clean_key_example: "clean_key '' Bearer sk-ops '' = ''sk-ops''"
  by (simp add: clean_key_def TrimSpace_def TrimRightSpace_def HasPrefix_def TrimPrefix_def
      space_runes_def)

text \<open>
  C1, as the code has it. For every presented secret that is not empty, \<open>ValidateAPIKey\<close>
  fails with the error \<open>invalid API key\<close> when its hash is not found, and with the different
  error \<open>API key is not valid\<close> when the record found is inactive or expired. The gate
  answers both with the same response, 401 with the message \<open>Invalid API key\<close>, for every
  request whose header yields that secret, so the client of the gate cannot tell the two
  cases apart.
\<close>

theorem validate_failures_gate:
  assumes "key \<noteq> []"
    and "lookup db1 (HashAPIKey key) = None"
    and "lookup db2 (HashAPIKey key) = Some ak" and "\<not> IsValid now ak"
  shows "fst (ValidateAPIKey now db1 key) = Inl (ErrorString ''invalid API key'')
       \<and> fst (ValidateAPIKey now db2 key) = Inl (ErrorString ''API key is not valid'')
       \<and> (\<forall>c. GetHeader c ''X-API-Key'' \<noteq> [] \<and> clean_key (GetHeader c ''X-API-Key'') = key \<longrightarrow>
              fst (APIKeyAuthMiddleware now db1 c) = unauthorized ''Invalid API key'' c
            \<and> fst (APIKeyAuthMiddleware now db2 c) = unauthorized ''Invalid API key'' c)"
proof -
  have v1: "ValidateAPIKey now db1 key
      = (Inl (ErrorString ''invalid API key''), sent (SelectByKey (HashAPIKey key)) db1)"
    using assms by (simp add: ValidateAPIKey_eq)
  have v2: "ValidateAPIKey now db2 key
      = (Inl (ErrorString ''API key is not valid''), sent (SelectByKey (HashAPIKey key)) db2)"
    using assms by (simp add: ValidateAPIKey_eq)
  have gate: "fst (APIKeyAuthMiddleware now db1 c) = unauthorized ''Invalid API key'' c
            \<and> fst (APIKeyAuthMiddleware now db2 c) = unauthorized ''Invalid API key'' c"
    if "GetHeader c ''X-API-Key'' \<noteq> []" "clean_key (GetHeader c ''X-API-Key'') = key" for c
    using that assms(1) v1 v2 by (simp add: gate_invalid)
  show ?thesis
    using v1 v2 gate by simp
qed

theorem validate_failures_gate_witness:
  "lookup (example_db []) (HashAPIKey ''sk-ops'') = None
   \<and> lookup (example_db [example_row False None None]) (HashAPIKey ''sk-ops'')
        = Some (example_row False None None)
   \<and> \<not> IsValid 5 (example_row False None None)
   \<and> GetHeader (example_context '' Bearer sk-ops '') ''X-API-Key'' \<noteq> []
   \<and> clean_key (GetHeader (example_context '' Bearer sk-ops '') ''X-API-Key'') = ''sk-ops''
   \<and> fst (ValidateAPIKey 5 (example_db []) ''sk-ops'') = Inl (ErrorString ''invalid API key'')
   \<and> fst (ValidateAPIKey 5 (example_db [example_row False None None]) ''sk-ops'')
        = Inl (ErrorString ''API key is not valid'')
   \<and> fst (APIKeyAuthMiddleware 5 (example_db []) (example_context '' Bearer sk-ops ''))
        = fst (APIKeyAuthMiddleware 5 (example_db [example_row False None None])
                 (example_context '' Bearer sk-ops ''))
   \<and> fst (ValidateAPIKey 5 (example_db []) '' sk-ops '') = Inl (ErrorString ''invalid API key'')
   \<and> fst (ValidateAPIKey 5
            (example_db [(example_row True (Some 4) None)\<lparr>Key := HashAPIKey '' sk-ops ''\<rparr>])
            '' sk-ops '')
        = Inl (ErrorString ''API key is not valid'')"
proof -
  have h: "GetHeader (example_context '' Bearer sk-ops '') ''X-API-Key'' \<noteq> []"
    by (simp add: GetHeader_example)
  have k: "clean_key (GetHeader (example_context '' Bearer sk-ops '') ''X-API-Key'') = ''sk-ops''"
    by (simp add: GetHeader_example clean_key_example)
  have ne: "''sk-ops'' \<noteq> []" by simp
  have l1: "lookup (example_db []) (HashAPIKey ''sk-ops'') = None"
    by (simp add: lookup_def example_db_def)
  have inv: "\<not> IsValid 5 (example_row False None None)"
    by (simp add: IsValid_iff example_row_def)
  have ne': "'' sk-ops '' \<noteq> []" by simp
  have l1': "lookup (example_db []) (HashAPIKey '' sk-ops '') = None"
    by (simp add: lookup_def example_db_def)
  have l2': "lookup (example_db [(example_row True (Some 4) None)\<lparr>Key := HashAPIKey '' sk-ops ''\<rparr>])
        (HashAPIKey '' sk-ops '')
      = Some ((example_row True (Some 4) None)\<lparr>Key := HashAPIKey '' sk-ops ''\<rparr>)"
    by (simp add: lookup_def example_db_def example_row_def live_def)
  have inv': "\<not> IsValid 5 ((example_row True (Some 4) None)\<lparr>Key := HashAPIKey '' sk-ops ''\<rparr>)"
    by (simp add: IsValid_iff example_row_def)
  note plain = validate_failures_gate [OF ne l1 lookup_example inv]
  note spaced = validate_failures_gate [OF ne' l1' l2' inv']
  from plain have "fst (APIKeyAuthMiddleware 5 (example_db []) (example_context '' Bearer sk-ops ''))
        = fst (APIKeyAuthMiddleware 5 (example_db [example_row False None None])
                 (example_context '' Bearer sk-ops ''))"
    using h k by simp
  then show ?thesis
    using plain spaced h k l1 inv by (simp add: lookup_example)
qed

text \<open>
  C1, as stated, fails: the caller of \<open>ValidateAPIKey\<close> receives two different errors for an
  unknown secret and for a known but inactive one.
\<close>

theorem validate_failures_counterexample:
  "fst (ValidateAPIKey 5 (example_db []) ''sk-ops'') = Inl (ErrorString ''invalid API key'')
   \<and> fst (ValidateAPIKey 5 (example_db [example_row False None None]) ''sk-ops'')
       = Inl (ErrorString ''API key is not valid'')
   \<and> fst (ValidateAPIKey 5 (example_db []) ''sk-ops'')
       \<noteq> fst (ValidateAPIKey 5 (example_db [example_row False None None]) ''sk-ops'')"
  by (simp add: ValidateAPIKey_eq lookup_example)
     (simp add: lookup_def example_db_def example_row_def IsValid_iff)

section \<open>Updating a key\<close>

text \<open>
  C10. \<open>UpdateAPIKey\<close> rejects a zero ID, and for a non-zero ID an empty name with the error
  \<open>name is required\<close>, in both cases without a statement sent to the database.
\<close>

theorem UpdateAPIKey_validation:
  "UpdateAPIKey now db 0 req = (Inl (ErrorString ''invalid API key ID''), db)
   \<and> (id' \<noteq> 0 \<and> upd_Name req = [] \<longrightarrow>
        UpdateAPIKey now db id' req = (Inl (ErrorString ''name is required''), db))"
proof -
  have zero_id: "UpdateAPIKey now db 0 req = (Inl (ErrorString ''invalid API key ID''), db)"
    by (simp add: UpdateAPIKey_def)
  have no_name: "UpdateAPIKey now db id' req = (Inl (ErrorString ''name is required''), db)"
    if "id' \<noteq> 0" and "upd_Name req = []"
    using that by (simp add: UpdateAPIKey_def)
  from zero_id no_name show ?thesis
    by blast
qed

theorem UpdateAPIKey_validation_witness:
  "(1::nat) \<noteq> 0 \<and> upd_Name (example_update [] True None) = []
   \<and> UpdateAPIKey 7 (example_db [example_row True None None]) 1 (example_update [] True None)
       = (Inl (ErrorString ''name is required''), example_db [example_row True None None])"
  using UpdateAPIKey_validation [of 7 "example_db [example_row True None None]"
      "example_update [] True None" 1]
  by (simp add: example_update_def)


section \<open>Key store: update and create\<close>

lemma GetByID_eq:
  "id' \<noteq> 0 \<Longrightarrow> GetByID db id' =
     ((case find (\<lambda>r. ID r = id' \<and> live r) (rows db) of
         None \<Rightarrow> Inl (ErrorString ''API key not found'')
       | Some apiKey \<Rightarrow> Inr apiKey), sent (SelectByID id') db)"
  by (simp add: GetByID_def db_First_def split: option.splits)

lemma rows_sent [simp]: "rows (sent st db) = rows db"
  by (simp add: sent_def)

lemma find_SomeD: "find P xs = Some x \<Longrightarrow> x \<in> set xs \<and> P x"
  by (induction xs) (auto split: if_splits)

lemma distinct_map_eq:
  "distinct (map f xs) \<Longrightarrow> x \<in> set xs \<Longrightarrow> y \<in> set xs \<Longrightarrow> f x = f y \<Longrightarrow> x = y"
  by (meson distinct_map inj_onD)

lemma Update_rows:
  assumes "primary_key db"
  shows "rows (snd (Update now db apiKey)) = rows db
         \<or> (fst (Update now db apiKey) \<noteq> Inl (ErrorString ''API key not found'')
            \<and> rows (snd (Update now db apiKey)) = map (updated now apiKey) (rows db))"
proof (cases "ID apiKey = 0 \<or> Name apiKey = []")
  case True
  then show ?thesis by (auto simp: Update_def)
next
  case False
  show ?thesis
  proof (cases "find (\<lambda>r. ID r = ID apiKey \<and> live r) (rows db)")
    case None
    with False show ?thesis by (simp add: Update_def GetByID_eq)
  next
    case (Some existing)
    then have ex: "existing \<in> set (rows db)" "ID existing = ID apiKey" "live existing"
      by (auto dest: find_SomeD)
    have "\<And>r. r \<in> set (rows db) \<Longrightarrow> ID r = ID apiKey \<Longrightarrow> r = existing"
      using assms ex by (auto simp: primary_key_def dest: distinct_map_eq)
    then have "map (\<lambda>r. if ID r = ID apiKey \<and> live r
                 then existing\<lparr>Name := Name apiKey, Description := Description apiKey,
                        Active := Active apiKey, ExpiresAt := ExpiresAt apiKey, UpdatedAt := now\<rparr>
                 else r) (rows db)
           = map (updated now apiKey) (rows db)"
      by (auto simp: updated_def)
    with False Some ex show ?thesis
      by (simp add: Update_def GetByID_eq db_Save_def Let_def)
  qed
qed

lemma updated_frame:
  "Key (updated now apiKey r) = Key r \<and> ID (updated now apiKey r) = ID r
   \<and> CreatedAt (updated now apiKey r) = CreatedAt r \<and> DeletedAt (updated now apiKey r) = DeletedAt r"
  by (simp add: updated_def)

text \<open>
  C7, as the code has it. On a table whose IDs are distinct (the primary key), \<open>Update\<close> of
  the store and \<open>UpdateAPIKey\<close> of the service leave the \<open>Key\<close> (the secret hash), the \<open>ID\<close>,
  the \<open>CreatedAt\<close> and the \<open>DeletedAt\<close> of every row as they were, whatever record or
  request they are given and whether they succeed or fail; a successful \<open>Update\<close> writes
  five fields of the live row of that ID and nothing else: the name, description, active
  flag and expiry of its argument, and \<open>UpdatedAt\<close>, which the store sets to the time of the
  write.
\<close>

theorem update_frame:
  assumes "primary_key db"
  shows "map Key (rows (snd (Update now db apiKey))) = map Key (rows db)
       \<and> map ID (rows (snd (Update now db apiKey))) = map ID (rows db)
       \<and> map CreatedAt (rows (snd (Update now db apiKey))) = map CreatedAt (rows db)
       \<and> map DeletedAt (rows (snd (Update now db apiKey))) = map DeletedAt (rows db)
       \<and> (\<forall>saved db'. Update now db apiKey = (Inr saved, db') \<longrightarrow>
             rows db' = map (updated now apiKey) (rows db))
       \<and> map Key (rows (snd (UpdateAPIKey now db id' req))) = map Key (rows db)
       \<and> map ID (rows (snd (UpdateAPIKey now db id' req))) = map ID (rows db)
       \<and> map CreatedAt (rows (snd (UpdateAPIKey now db id' req))) = map CreatedAt (rows db)
       \<and> map DeletedAt (rows (snd (UpdateAPIKey now db id' req))) = map DeletedAt (rows db)"
proof -
  have frame: "map Key (map (updated now a) rs) = map Key rs
      \<and> map ID (map (updated now a) rs) = map ID rs
      \<and> map CreatedAt (map (updated now a) rs) = map CreatedAt rs
      \<and> map DeletedAt (map (updated now a) rs) = map DeletedAt rs" for a rs
    by (simp add: updated_frame)
  have repo: "map Key (rows (snd (Update now d a))) = map Key (rows d)
      \<and> map ID (rows (snd (Update now d a))) = map ID (rows d)
      \<and> map CreatedAt (rows (snd (Update now d a))) = map CreatedAt (rows d)
      \<and> map DeletedAt (rows (snd (Update now d a))) = map DeletedAt (rows d)"
    if "primary_key d" for d a
    using Update_rows [OF that, of now a] frame [of a "rows d"] by auto
  have succ: "\<forall>saved db'. Update now db apiKey = (Inr saved, db') \<longrightarrow>
             rows db' = map (updated now apiKey) (rows db)"
  proof (intro allI impI)
    fix saved db'
    assume u: "Update now db apiKey = (Inr saved, db')"
    then have nz: "ID apiKey \<noteq> 0" "Name apiKey \<noteq> []"
      by (auto simp: Update_def split: if_splits)
    from u nz obtain existing where
      f: "find (\<lambda>r. ID r = ID apiKey \<and> live r) (rows db) = Some existing"
      by (auto simp: Update_def GetByID_eq split: option.splits)
    then have ex: "existing \<in> set (rows db)" "ID existing = ID apiKey" "live existing"
      by (auto dest: find_SomeD)
    have one: "\<And>r. r \<in> set (rows db) \<Longrightarrow> ID r = ID apiKey \<Longrightarrow> r = existing"
      using assms ex by (auto simp: primary_key_def dest: distinct_map_eq)
    from u nz f have "rows db' = map (\<lambda>r. if ID r = ID apiKey \<and> live r
                 then existing\<lparr>Name := Name apiKey, Description := Description apiKey,
                        Active := Active apiKey, ExpiresAt := ExpiresAt apiKey, UpdatedAt := now\<rparr>
                 else r) (rows db)"
      using ex by (auto simp: Update_def GetByID_eq db_Save_def Let_def)
    also have "\<dots> = map (updated now apiKey) (rows db)"
      using one by (auto simp: updated_def)
    finally show "rows db' = map (updated now apiKey) (rows db)" .
  qed
  have svc: "rows (snd (UpdateAPIKey now db id' req)) = rows db
      \<or> (\<exists>a. rows (snd (UpdateAPIKey now db id' req)) = rows (snd (Update now (sent (SelectByID id') db) a)))"
  proof (cases "find (\<lambda>r. ID r = id' \<and> live r) (rows db)")
    case None
    then show ?thesis
      by (simp add: UpdateAPIKey_def GetByID_eq)
  next
    case (Some existing)
    have "snd (UpdateAPIKey now db id' req) = db \<or> snd (UpdateAPIKey now db id' req)
        = snd (Update now (sent (SelectByID id') db) (FromUpdateRequest existing req))"
      using Some by (simp add: UpdateAPIKey_def GetByID_eq split: prod.splits sum.splits)
    then show ?thesis by auto
  qed
  have pk': "primary_key (sent (SelectByID id') db)"
    using assms by (simp add: primary_key_def)
  from svc repo [OF pk'] have service:
    "map Key (rows (snd (UpdateAPIKey now db id' req))) = map Key (rows db)
      \<and> map ID (rows (snd (UpdateAPIKey now db id' req))) = map ID (rows db)
      \<and> map CreatedAt (rows (snd (UpdateAPIKey now db id' req))) = map CreatedAt (rows db)
      \<and> map DeletedAt (rows (snd (UpdateAPIKey now db id' req))) = map DeletedAt (rows db)"
    by auto
  show ?thesis
    using repo [OF assms, of apiKey] succ service by blast
qed



theorem update_frame_witness:
  "primary_key (example_db [example_row True None None])
   \<and> rows (snd (Update 9 (example_db [example_row True None None])
                  ((example_row False (Some 50) None)\<lparr>Name := ''ci'', Key := ''forged''\<rparr>)))
      = [\<lparr>ID = 1, Name = ''ci'', Key = HashAPIKey ''sk-ops'', Description = [], Active = False,
          ExpiresAt = Some 50, CreatedAt = 1, UpdatedAt = 9, DeletedAt = None\<rparr>]
   \<and> map Key (rows (snd (UpdateAPIKey 9 (example_db [example_row True None None]) 1
                  (example_update ''ci'' False (Some 50)))))
      = [HashAPIKey ''sk-ops'']"
proof -
  have pk: "primary_key (example_db [example_row True None None])"
    by (simp add: primary_key_def example_db_def)
  have u: "Update 9 (example_db [example_row True None None])
             ((example_row False (Some 50) None)\<lparr>Name := ''ci'', Key := ''forged''\<rparr>)
        = (Inr \<lparr>ID = 1, Name = ''ci'', Key = HashAPIKey ''sk-ops'', Description = [], Active = False,
          ExpiresAt = Some 50, CreatedAt = 1, UpdatedAt = 9, DeletedAt = None\<rparr>,
           snd (Update 9 (example_db [example_row True None None])
             ((example_row False (Some 50) None)\<lparr>Name := ''ci'', Key := ''forged''\<rparr>)))"
    by (simp add: Update_def GetByID_def db_First_def db_Save_def sent_def live_def Let_def
        example_db_def example_row_def)
  from update_frame [OF pk, of 9
      "(example_row False (Some 50) None)\<lparr>Name := ''ci'', Key := ''forged''\<rparr>" 1
      "example_update ''ci'' False (Some 50)"] u
  show ?thesis
    using pk by (simp add: example_db_def) (simp add: updated_def example_row_def live_def)
qed

text \<open>
  C7, as stated, fails: the four fields named are not the only ones that \<open>Update\<close> mutates.
  An update that gives the stored record its own name, description, active flag and
  expiry still changes the record, whose \<open>UpdatedAt\<close> moves from 1 to the time of the write.
\<close>

theorem update_frame_counterexample:
  "rows (snd (Update 9 (example_db [example_row True None None]) (example_row True None None)))
     = [(example_row True None None)\<lparr>UpdatedAt := 9\<rparr>]
   \<and> map UpdatedAt (rows (example_db [example_row True None None])) = [1]
   \<and> map UpdatedAt (rows (snd (Update 9 (example_db [example_row True None None])
                                  (example_row True None None)))) = [9]
   \<and> rows (snd (Update 9 (example_db [example_row True None None]) (example_row True None None)))
     \<noteq> rows (example_db [example_row True None None])"
  by (simp add: Update_def GetByID_def db_First_def db_Save_def sent_def live_def Let_def
      example_db_def example_row_def)

lemma ExistsByKey_eq:
  "key \<noteq> [] \<Longrightarrow> ExistsByKey db key =
     ((\<exists>r \<in> set (rows db). Key r = key \<and> live r), sent (CountByKey key) db)"
  by (auto simp: ExistsByKey_def db_Count_def filter_empty_conv)

lemma Create_checked:
  assumes "Name apiKey \<noteq> []" and "Key apiKey \<noteq> []"
  shows "Create now db apiKey =
     (if \<exists>r \<in> set (rows db). Key r = Key apiKey \<and> live r
      then (Inl (ErrorString ''API key already exists''), sent (CountByKey (Key apiKey)) db)
      else db_Create now (sent (CountByKey (Key apiKey)) db) apiKey)"
proof -
  define b where "b \<longleftrightarrow> (\<exists>r \<in> set (rows db). Key r = Key apiKey \<and> live r)"
  have "ExistsByKey db (Key apiKey) = (b, sent (CountByKey (Key apiKey)) db)"
    using assms(2) by (simp add: ExistsByKey_eq b_def)
  then have "Create now db apiKey =
     (if b then (Inl (ErrorString ''API key already exists''), sent (CountByKey (Key apiKey)) db)
      else db_Create now (sent (CountByKey (Key apiKey)) db) apiKey)"
    using assms by (cases b) (simp_all add: Create_def)
  then show ?thesis
    by (simp only: b_def)
qed

lemma Create_duplicate:
  assumes "Name apiKey \<noteq> []" and "Key apiKey \<noteq> []"
    and "r \<in> set (rows db)" and "Key r = Key apiKey" and "live r"
  shows "Create now db apiKey =
     (Inl (ErrorString ''API key already exists''), sent (CountByKey (Key apiKey)) db)"
proof -
  have "\<exists>r \<in> set (rows db). Key r = Key apiKey \<and> live r"
    using assms(3-5) by blast
  then show ?thesis
    by (simp only: Create_checked [OF assms(1,2)] if_True)
qed

lemma Create_fresh:
  assumes "Name apiKey \<noteq> []" and "Key apiKey \<noteq> []"
    and "\<not> (\<exists>r \<in> set (rows db). Key r = Key apiKey \<and> live r)"
  shows "Create now db apiKey = db_Create now (sent (CountByKey (Key apiKey)) db) apiKey"
  by (simp only: Create_checked [OF assms(1,2)] assms(3) if_False)

lemma last_id_sent [simp]: "last_id (sent st db) = last_id db"
  by (simp add: sent_def)

lemma key_index_sent [simp]: "key_index (sent st db) = key_index db"
  by (simp add: sent_def)

lemma inserted_sent [simp]: "inserted now (sent st db) ak = inserted now db ak"
  by (simp add: inserted_def)

lemma inserted_fields:
  "Name (inserted now db ak) = Name ak \<and> Key (inserted now db ak) = Key ak
   \<and> Description (inserted now db ak) = Description ak \<and> Active (inserted now db ak)
   \<and> ExpiresAt (inserted now db ak) = ExpiresAt ak
   \<and> DeletedAt (inserted now db ak) = DeletedAt ak"
  by (simp add: inserted_def)


lemma db_Create_success:
  assumes "db_Create now db ak = (Inr saved, db')"
  shows "saved = inserted now db ak \<and> rows db' = rows db @ [saved]
       \<and> ID saved \<notin> ID ` set (rows db) \<and> (key_index db \<longrightarrow> Key ak \<notin> Key ` set (rows db))
       \<and> key_index db' = key_index db"
proof (cases "ID ak = 0")
  case True
  with assms show ?thesis
    by (auto simp: db_Create_def Let_def inserted_def sent_def split: if_splits)
next
  case False
  with assms show ?thesis
    by (auto simp: db_Create_def Let_def inserted_def sent_def split: if_splits)
qed


lemma Create_success:
  assumes "Create now db ak = (Inr saved, db')"
  shows "saved = inserted now db ak \<and> rows db' = rows db @ [saved]
       \<and> (\<forall>r \<in> set (rows db). Key r = Key ak \<longrightarrow> \<not> live r)
       \<and> ID saved \<notin> ID ` set (rows db) \<and> (key_index db \<longrightarrow> Key ak \<notin> Key ` set (rows db))
       \<and> key_index db' = key_index db \<and> Name ak \<noteq> [] \<and> Key ak \<noteq> []"
proof -
  from assms have ne: "Name ak \<noteq> []" "Key ak \<noteq> []"
    by (auto simp: Create_def split: if_splits)
  have fresh: "\<not> (\<exists>r \<in> set (rows db). Key r = Key ak \<and> live r)"
  proof
    assume "\<exists>r \<in> set (rows db). Key r = Key ak \<and> live r"
    then obtain r where "r \<in> set (rows db)" "Key r = Key ak" "live r" by blast
    with ne have "fst (Create now db ak) = Inl (ErrorString ''API key already exists'')"
      by (simp add: Create_duplicate)
    with assms show False by simp
  qed
  with ne have "Create now db ak = db_Create now (sent (CountByKey (Key ak)) db) ak"
    by (rule Create_fresh)
  with assms have "db_Create now (sent (CountByKey (Key ak)) db) ak = (Inr saved, db')"
    by simp
  from db_Create_success [OF this] have
    "saved = inserted now db ak" "rows db' = rows db @ [saved]"
    "ID saved \<notin> ID ` set (rows db)" "key_index db \<longrightarrow> Key ak \<notin> Key ` set (rows db)"
    "key_index db' = key_index db"
    by auto
  then show ?thesis
    using fresh ne by blast
qed

















section \<open>Round trip: create, then validate\<close>

lemma find_append:
  "find P (xs @ ys) = (case find P xs of None \<Rightarrow> find P ys | Some x \<Rightarrow> Some x)"
  by (induction xs) simp_all

lemma find_None: "(\<forall>x \<in> set xs. \<not> P x) \<Longrightarrow> find P xs = None"
  by (induction xs) simp_all

lemma GenerateAPIKey_not_empty: "GenerateAPIKey entropy = Inr S \<Longrightarrow> S \<noteq> []"
  by (auto simp: GenerateAPIKey_def split: sum.splits)

lemma GenerateAPIKey_example: "GenerateAPIKey example_entropy = Inr example_secret"
  by code_simp

lemma CreateAPIKey_example:
  "CreateAPIKey 10 example_entropy (example_db []) (example_request e) =
     (Inr \<lparr>resp_ID = 1, resp_Name = ''ops'', resp_Key = example_secret,
           resp_Description = ''deploys'', resp_Active = True, resp_ExpiresAt = e,
           resp_CreatedAt = 10, resp_UpdatedAt = 10\<rparr>,
      \<lparr>rows = [\<lparr>ID = 1, Name = ''ops'', Key = HashAPIKey example_secret,
                 Description = ''deploys'', Active = True, ExpiresAt = e, CreatedAt = 10,
                 UpdatedAt = 10, DeletedAt = None\<rparr>],
       last_id = 1,
       statements = [CountByKey (HashAPIKey example_secret),
                     Insert \<lparr>ID = 0, Name = ''ops'', Key = HashAPIKey example_secret,
                 Description = ''deploys'', Active = True, ExpiresAt = e, CreatedAt = 0,
                 UpdatedAt = 0, DeletedAt = None\<rparr>],
       key_index = False\<rparr>)"
  by (simp add: CreateAPIKey_def FromCreateRequest_def GenerateAPIKey_example Create_def
      ExistsByKey_def db_Count_def db_Create_def sent_def HashAPIKey_not_empty Let_def
      example_db_def example_request_def zero_APIKey_def ToResponseWithKey_def)

text \<open>
  C6, as the code has it. When \<open>CreateAPIKey\<close> succeeds and the expiry of the request is
  absent or not before the time of validation, \<open>ValidateAPIKey\<close> on the plaintext secret of
  the response succeeds and returns the record created, whose name is the name given.
\<close>

theorem create_then_validate:
  assumes "CreateAPIKey now entropy db req = (Inr resp, db')"
    and "req_ExpiresAt req = None \<or> (\<exists>t. req_ExpiresAt req = Some t \<and> now' \<le> t)"
  shows "\<exists>ak. fst (ValidateAPIKey now' db' (resp_Key resp)) = Inr ak
           \<and> Name ak = req_Name req \<and> Name ak = resp_Name resp \<and> ID ak = resp_ID resp
           \<and> Key ak = HashAPIKey (resp_Key resp)"
proof -
  from assms(1) obtain plainTextKey apiKey saved where
    gen: "GenerateAPIKey entropy = Inr plainTextKey"
    and ak: "apiKey = zero_APIKey\<lparr>Name := req_Name req, Description := req_Description req,
               ExpiresAt := req_ExpiresAt req, Active := True, Key := HashAPIKey plainTextKey\<rparr>"
    and cr: "Create now db apiKey = (Inr saved, db')"
    and resp: "resp = ToResponseWithKey saved plainTextKey"
    by (auto simp: CreateAPIKey_def FromCreateRequest_def Let_def
        split: if_splits sum.splits prod.splits)
  from Create_success [OF cr] have
    rows: "rows db' = rows db @ [saved]" and sv: "saved = inserted now db apiKey"
    and fresh: "\<forall>r \<in> set (rows db). Key r = Key apiKey \<longrightarrow> \<not> live r"
    by blast+
  have saved: "Name saved = Name apiKey" "Key saved = Key apiKey" "Active saved"
      "ExpiresAt saved = ExpiresAt apiKey" "DeletedAt saved = DeletedAt apiKey"
    by (simp_all add: sv inserted_fields)
  have key: "Key apiKey = HashAPIKey plainTextKey"
    by (simp add: ak)
  have "find (\<lambda>r. Key r = HashAPIKey plainTextKey \<and> live r) (rows db) = None"
    using fresh key by (auto simp: find_None_iff)
  then have look: "lookup db' (HashAPIKey plainTextKey) = Some saved"
    using saved key by (simp add: lookup_def rows find_append live_def ak zero_APIKey_def)
  have "IsValid now' saved"
    using assms(2) saved by (auto simp: IsValid_iff ak)
  with look GenerateAPIKey_not_empty [OF gen] have
    "fst (ValidateAPIKey now' db' plainTextKey) = Inr saved"
    by (simp add: ValidateAPIKey_eq)
  then show ?thesis
    using saved key by (simp add: resp ToResponseWithKey_def ak)
qed

theorem create_then_validate_witness:
  "fst (CreateAPIKey 10 example_entropy (example_db []) (example_request (Some 20)))
      = Inr \<lparr>resp_ID = 1, resp_Name = ''ops'', resp_Key = example_secret,
           resp_Description = ''deploys'', resp_Active = True, resp_ExpiresAt = Some 20,
           resp_CreatedAt = 10, resp_UpdatedAt = 10\<rparr>
   \<and> (\<exists>ak. fst (ValidateAPIKey 20
                (snd (CreateAPIKey 10 example_entropy (example_db []) (example_request (Some 20))))
                example_secret) = Inr ak
          \<and> Name ak = ''ops'' \<and> ID ak = 1)"
proof -
  have e: "req_ExpiresAt (example_request (Some 20)) = None
      \<or> (\<exists>t. req_ExpiresAt (example_request (Some 20)) = Some t \<and> (20::int) \<le> t)"
    by (simp add: example_request_def)
  from create_then_validate [OF CreateAPIKey_example e]
  show ?thesis
    by (simp add: CreateAPIKey_example) (auto simp: example_request_def)
qed

text \<open>
  C6, as stated, fails for a request whose expiry is already past: creation succeeds and
  the validation that follows it is refused.
\<close>

theorem create_then_validate_counterexample:
  "map_sum (\<lambda>err. err) resp_Key
       (fst (CreateAPIKey 10 example_entropy (example_db []) (example_request (Some 5))))
     = Inr example_secret
   \<and> fst (ValidateAPIKey 10
        (snd (CreateAPIKey 10 example_entropy (example_db []) (example_request (Some 5))))
        example_secret)
     = Inl (ErrorString ''API key is not valid'')"
proof -
  have "example_secret \<noteq> []"
    by (simp add: example_secret_def)
  then show ?thesis
    by (simp add: CreateAPIKey_example ValidateAPIKey_eq lookup_def live_def IsValid_iff)
qed


section \<open>Trimming, and the decision of the gate\<close>

lemma space_runes_not_empty: "sp \<in> set space_runes \<Longrightarrow> sp \<noteq> []"
  by (auto simp: space_runes_def)

lemma TrimLeftSpace_suffix: "\<exists>l. s = l @ TrimLeftSpace s"
proof (induction s rule: TrimLeftSpace.induct)
  case 1
  show ?case by simp
next
  case (2 c cs)
  show ?case
  proof (cases "find (HasPrefix (c # cs)) space_runes")
    case None
    then show ?thesis by simp
  next
    case (Some sp)
    with 2 obtain l where "drop (length sp - 1) cs = l @ TrimLeftSpace (drop (length sp - 1) cs)"
      by blast
    then have "c # cs = (c # take (length sp - 1) cs @ l) @ TrimLeftSpace (drop (length sp - 1) cs)"
      by (metis append_Cons append_assoc append_take_drop_id)
    then have "\<exists>l'. c # cs = l' @ TrimLeftSpace (drop (length sp - 1) cs)"
      by blast
    moreover from Some have "TrimLeftSpace (c # cs) = TrimLeftSpace (drop (length sp - 1) cs)"
      by simp
    ultimately show ?thesis by (simp only:)
  qed
qed

lemma TrimLeftSpace_no_space: "\<not> starts_with_space (TrimLeftSpace s)"
proof (induction s rule: TrimLeftSpace.induct)
  case 1
  have "\<And>sp. sp \<in> set space_runes \<Longrightarrow> \<not> HasPrefix [] sp"
    by (auto simp: HasPrefix_def dest: space_runes_not_empty)
  then have "find (HasPrefix []) space_runes = None"
    by (simp add: find_None_iff)
  then show ?case by (simp add: starts_with_space_def)
next
  case (2 c cs)
  then show ?case
    by (cases "find (HasPrefix (c # cs)) space_runes") (simp_all add: starts_with_space_def)
qed

lemma TrimRightSpace_rev_suffix: "\<exists>l. s = l @ TrimRightSpace_rev s"
proof (induction s rule: TrimRightSpace_rev.induct)
  case 1
  show ?case by simp
next
  case (2 c cs)
  show ?case
  proof (cases "find (\<lambda>sp. HasPrefix (c # cs) (rev sp)) space_runes")
    case None
    then show ?thesis by simp
  next
    case (Some sp)
    with 2 obtain l where
      "drop (length sp - 1) cs = l @ TrimRightSpace_rev (drop (length sp - 1) cs)"
      by blast
    then have "c # cs = (c # take (length sp - 1) cs @ l) @ TrimRightSpace_rev (drop (length sp - 1) cs)"
      by (metis append_Cons append_assoc append_take_drop_id)
    then have "\<exists>l'. c # cs = l' @ TrimRightSpace_rev (drop (length sp - 1) cs)"
      by blast
    moreover from Some have "TrimRightSpace_rev (c # cs) = TrimRightSpace_rev (drop (length sp - 1) cs)"
      by simp
    ultimately show ?thesis by (simp only:)
  qed
qed

lemma TrimRightSpace_rev_no_space:
  "find (\<lambda>sp. HasPrefix (TrimRightSpace_rev s) (rev sp)) space_runes = None"
proof (induction s rule: TrimRightSpace_rev.induct)
  case 1
  have "\<And>sp. sp \<in> set space_runes \<Longrightarrow> \<not> HasPrefix [] (rev sp)"
    by (auto simp: HasPrefix_def dest: space_runes_not_empty)
  then show ?case
    by (simp add: find_None_iff)
next
  case (2 c cs)
  then show ?case
    by (cases "find (\<lambda>sp. HasPrefix (c # cs) (rev sp)) space_runes") simp_all
qed

lemma TrimRightSpace_prefix: "\<exists>r. s = TrimRightSpace s @ r"
proof -
  obtain l where "rev s = l @ TrimRightSpace_rev (rev s)"
    using TrimRightSpace_rev_suffix by blast
  then have "s = rev (TrimRightSpace_rev (rev s)) @ rev l"
    by (metis rev_append rev_rev_ident)
  then show ?thesis
    by (auto simp: TrimRightSpace_def)
qed

lemma TrimRightSpace_no_space: "\<not> ends_with_space (TrimRightSpace s)"
  by (simp add: ends_with_space_def TrimRightSpace_def TrimRightSpace_rev_no_space)

lemma HasPrefix_append: "HasPrefix s sp \<Longrightarrow> HasPrefix (s @ r) sp"
  by (auto simp: HasPrefix_def)

lemma starts_with_space_append: "starts_with_space s \<Longrightarrow> starts_with_space (s @ r)"
proof -
  assume "starts_with_space s"
  then obtain sp where "sp \<in> set space_runes" "HasPrefix s sp"
    by (auto simp: starts_with_space_def dest: find_SomeD)
  then have "\<exists>sp \<in> set space_runes. HasPrefix (s @ r) sp"
    by (auto intro: HasPrefix_append)
  then show ?thesis
    unfolding starts_with_space_def find_None_iff by blast
qed

lemma TrimSpace_part: "\<exists>l r. s = l @ TrimSpace s @ r"
proof -
  obtain l where l: "s = l @ TrimLeftSpace s"
    using TrimLeftSpace_suffix by blast
  obtain r where "TrimLeftSpace s = TrimRightSpace (TrimLeftSpace s) @ r"
    using TrimRightSpace_prefix by blast
  with l have "s = l @ TrimSpace s @ r"
    by (simp add: TrimSpace_def)
  then show ?thesis by blast
qed

lemma TrimSpace_no_space: "\<not> starts_with_space (TrimSpace s) \<and> \<not> ends_with_space (TrimSpace s)"
proof -
  obtain r where "TrimLeftSpace s = TrimSpace s @ r"
    using TrimRightSpace_prefix [of "TrimLeftSpace s"] by (auto simp: TrimSpace_def)
  then have "starts_with_space (TrimSpace s) \<Longrightarrow> starts_with_space (TrimLeftSpace s)"
    using starts_with_space_append [of "TrimSpace s" r] by simp
  then show ?thesis
    using TrimLeftSpace_no_space [of s] TrimRightSpace_no_space [of "TrimLeftSpace s"]
    by (auto simp: TrimSpace_def)
qed

lemma clean_key_part: "\<exists>l r. h = l @ clean_key h @ r"
proof (cases "HasPrefix (TrimSpace h) ''Bearer ''")
  case False
  then show ?thesis
    using TrimSpace_part [of h] by (simp add: clean_key_def)
next
  case True
  obtain l r where h: "h = l @ TrimSpace h @ r"
    using TrimSpace_part by blast
  have seven: "length ''Bearer '' = 7"
    by simp
  from True have "take 7 (TrimSpace h) = ''Bearer ''"
    unfolding HasPrefix_def seven by blast
  then have t: "TrimSpace h = ''Bearer '' @ drop 7 (TrimSpace h)"
    by (metis append_take_drop_id)
  obtain l' r' where "drop 7 (TrimSpace h) = l' @ TrimSpace (drop 7 (TrimSpace h)) @ r'"
    using TrimSpace_part by blast
  with t have "TrimSpace h = (''Bearer '' @ l') @ TrimSpace (drop 7 (TrimSpace h)) @ r'"
    by simp
  with h have "h = (l @ ''Bearer '' @ l') @ TrimSpace (drop 7 (TrimSpace h)) @ (r' @ r)"
    by (metis append_assoc)
  moreover have "clean_key h = TrimSpace (drop 7 (TrimSpace h))"
    using True by (simp only: clean_key_def TrimPrefix_def Let_def if_True seven)
  ultimately show ?thesis by metis
qed

lemma clean_key_no_space: "\<not> starts_with_space (clean_key h) \<and> \<not> ends_with_space (clean_key h)"
  using TrimSpace_no_space by (simp add: clean_key_def Let_def)


lemma ValidateAPIKey_rows: "rows (snd (ValidateAPIKey now db key)) = rows db"
proof (cases "key = []")
  case True
  then show ?thesis by (simp add: ValidateAPIKey_def)
next
  case False
  then show ?thesis by (simp add: ValidateAPIKey_eq)
qed

lemma clean_key_blank: "clean_key ''   '' = []"
  by (simp add: clean_key_def TrimSpace_def TrimRightSpace_def HasPrefix_def TrimPrefix_def
      space_runes_def)

text \<open>
  C9. The gate answers 401 and aborts, without calling the next handler, when the header
  \<open>X-API-Key\<close> is absent or empty and when nothing is left of it after trimming white space
  and a leading \<open>Bearer\<close> prefix; otherwise it passes the cleaned value to \<open>ValidateAPIKey\<close>,
  answers 401 and aborts when validation fails, and on success stores the record, its ID
  and its name in the context and calls the next handler. The cleaned value is a part of
  the header value with no white space at either end, and the gate changes no row.
\<close>

theorem gate_decision:
  "(GetHeader c ''X-API-Key'' = [] \<longrightarrow>
      APIKeyAuthMiddleware now db c = (unauthorized ''API key is required'' c, db))
   \<and> (GetHeader c ''X-API-Key'' \<noteq> [] \<and> clean_key (GetHeader c ''X-API-Key'') = [] \<longrightarrow>
      APIKeyAuthMiddleware now db c = (unauthorized ''API key cannot be empty'' c, db))
   \<and> (GetHeader c ''X-API-Key'' \<noteq> [] \<and> clean_key (GetHeader c ''X-API-Key'') \<noteq> [] \<longrightarrow>
        (\<forall>err db1. ValidateAPIKey now db (clean_key (GetHeader c ''X-API-Key'')) = (Inl err, db1) \<longrightarrow>
           APIKeyAuthMiddleware now db c = (unauthorized ''Invalid API key'' c, db1))
      \<and> (\<forall>ak db1. ValidateAPIKey now db (clean_key (GetHeader c ''X-API-Key'')) = (Inr ak, db1) \<longrightarrow>
           APIKeyAuthMiddleware now db c =
             (c\<lparr>Keys := (Keys c)(''api_key'' \<mapsto> APIKeyValue ak,
                                 ''api_key_id'' \<mapsto> UintValue (ID ak),
                                 ''api_key_name'' \<mapsto> StringValue (Name ak)),
                next_called := True\<rparr>, db1)))
   \<and> response (unauthorized m c) = Some (401, [(''error'', ''Unauthorized''), (''message'', m)])
   \<and> aborted (unauthorized m c) \<and> next_called (unauthorized m c) = next_called c
   \<and> Keys (unauthorized m c) = Keys c
   \<and> rows (snd (APIKeyAuthMiddleware now db c)) = rows db
   \<and> clean_key h = (if HasPrefix (TrimSpace h) ''Bearer ''
                     then TrimSpace (drop (length ''Bearer '') (TrimSpace h)) else TrimSpace h)
   \<and> (\<exists>l r. h = l @ clean_key h @ r)
   \<and> \<not> starts_with_space (clean_key h) \<and> \<not> ends_with_space (clean_key h)"
proof -
  have rows: "rows (snd (APIKeyAuthMiddleware now db c)) = rows db"
  proof (cases "GetHeader c ''X-API-Key'' = [] \<or> clean_key (GetHeader c ''X-API-Key'') = []")
    case True
    then show ?thesis
      by (cases "GetHeader c ''X-API-Key'' = []") (simp_all add: gate_no_header gate_empty_key)
  next
    case False
    obtain res db1 where v: "ValidateAPIKey now db (clean_key (GetHeader c ''X-API-Key'')) = (res, db1)"
      by (cases "ValidateAPIKey now db (clean_key (GetHeader c ''X-API-Key''))")
    then have "rows db1 = rows db"
      using ValidateAPIKey_rows [of now db "clean_key (GetHeader c ''X-API-Key'')"] by simp
    moreover have "snd (APIKeyAuthMiddleware now db c) = db1"
      using False v by (cases res) (simp_all add: gate_invalid gate_valid)
    ultimately show ?thesis by simp
  qed
  have clean: "clean_key h = (if HasPrefix (TrimSpace h) ''Bearer ''
                     then TrimSpace (drop (length ''Bearer '') (TrimSpace h)) else TrimSpace h)"
  proof (cases "HasPrefix (TrimSpace h) ''Bearer ''")
    case True
    then show ?thesis by (simp only: clean_key_def TrimPrefix_def Let_def if_True)
  next
    case False
    then show ?thesis by (simp only: clean_key_def Let_def if_False)
  qed
  show ?thesis
    using rows clean clean_key_part [of h] clean_key_no_space [of h] unauthorized_fields [of m c]
    by (simp only: gate_no_header gate_empty_key gate_invalid gate_valid simp_thms)
       (auto simp: gate_no_header gate_empty_key gate_invalid gate_valid)
qed


theorem gate_decision_witness:
  "APIKeyAuthMiddleware 5 (example_db [example_row True None None]) (example_context [])
     = (unauthorized ''API key is required'' (example_context []),
        example_db [example_row True None None])
   \<and> response (unauthorized ''API key is required'' (example_context []))
     = Some (401, [(''error'', ''Unauthorized''), (''message'', ''API key is required'')])
   \<and> aborted (unauthorized ''API key is required'' (example_context []))
   \<and> \<not> next_called (unauthorized ''API key is required'' (example_context []))
   \<and> APIKeyAuthMiddleware 5 (example_db [example_row True None None]) (example_context ''   '')
     = (unauthorized ''API key cannot be empty'' (example_context ''   ''),
        example_db [example_row True None None])
   \<and> fst (APIKeyAuthMiddleware 5 (example_db []) (example_context '' Bearer sk-ops ''))
     = unauthorized ''Invalid API key'' (example_context '' Bearer sk-ops '')
   \<and> Keys (fst (APIKeyAuthMiddleware 5 (example_db [example_row True None None])
                  (example_context '' Bearer sk-ops ''))) ''api_key_id'' = Some (UintValue 1)
   \<and> Keys (fst (APIKeyAuthMiddleware 5 (example_db [example_row True None None])
                  (example_context '' Bearer sk-ops ''))) ''api_key_name''
       = Some (StringValue ''ops'')
   \<and> next_called (fst (APIKeyAuthMiddleware 5 (example_db [example_row True None None])
                  (example_context '' Bearer sk-ops '')))
   \<and> \<not> aborted (fst (APIKeyAuthMiddleware 5 (example_db [example_row True None None])
                  (example_context '' Bearer sk-ops '')))
   \<and> response (fst (APIKeyAuthMiddleware 5 (example_db [example_row True None None])
                  (example_context '' Bearer sk-ops ''))) = None"
proof -
  note absent = gate_decision [of "example_context []" 5 "example_db [example_row True None None]"
      "''API key is required''"]
  note blank = gate_decision [of "example_context ''   ''" 5
      "example_db [example_row True None None]"]
  note unknown = gate_decision [of "example_context '' Bearer sk-ops ''" 5 "example_db []"]
  note known = gate_decision [of "example_context '' Bearer sk-ops ''" 5
      "example_db [example_row True None None]"]
  have ne: "''sk-ops'' \<noteq> []" by simp
  have v0: "ValidateAPIKey 5 (example_db []) ''sk-ops''
      = (Inl (ErrorString ''invalid API key''), sent (SelectByKey (HashAPIKey ''sk-ops'')) (example_db []))"
    by (simp add: ValidateAPIKey_eq [OF ne] lookup_def example_db_def)
  have v1: "ValidateAPIKey 5 (example_db [example_row True None None]) ''sk-ops''
      = (Inr (example_row True None None),
         sent (SelectByKey (HashAPIKey ''sk-ops'')) (example_db [example_row True None None]))"
    by (simp add: ValidateAPIKey_eq [OF ne] lookup_example IsValid_iff) (simp add: example_row_def)
  have a: "APIKeyAuthMiddleware 5 (example_db [example_row True None None]) (example_context [])
     = (unauthorized ''API key is required'' (example_context []),
        example_db [example_row True None None])
   \<and> response (unauthorized ''API key is required'' (example_context []))
     = Some (401, [(''error'', ''Unauthorized''), (''message'', ''API key is required'')])
   \<and> aborted (unauthorized ''API key is required'' (example_context []))
   \<and> \<not> next_called (unauthorized ''API key is required'' (example_context []))"
    using absent by (simp add: GetHeader_example) (simp add: example_context_def)
  have b: "APIKeyAuthMiddleware 5 (example_db [example_row True None None]) (example_context ''   '')
     = (unauthorized ''API key cannot be empty'' (example_context ''   ''),
        example_db [example_row True None None])"
    using blank by (simp add: GetHeader_example clean_key_blank)
  have u: "fst (APIKeyAuthMiddleware 5 (example_db []) (example_context '' Bearer sk-ops ''))
     = unauthorized ''Invalid API key'' (example_context '' Bearer sk-ops '')"
    using unknown v0 by (simp add: GetHeader_example clean_key_example)
  have k: "APIKeyAuthMiddleware 5 (example_db [example_row True None None])
                  (example_context '' Bearer sk-ops '')
      = ((example_context '' Bearer sk-ops '')
           \<lparr>Keys := (Keys (example_context '' Bearer sk-ops ''))
               (''api_key'' \<mapsto> APIKeyValue (example_row True None None),
                ''api_key_id'' \<mapsto> UintValue (ID (example_row True None None)),
                ''api_key_name'' \<mapsto> StringValue (Name (example_row True None None))),
             next_called := True\<rparr>,
         sent (SelectByKey (HashAPIKey ''sk-ops'')) (example_db [example_row True None None]))"
    using known v1 by (simp add: GetHeader_example clean_key_example)
  show ?thesis
    using a b u by (simp add: k) (simp add: example_row_def example_context_def)
qed


end
